theory Spec2Isabelle
  imports Main
begin

section \<open>Python string primitives used by the path codec\<close>

text \<open>
  Python strings are modelled as \<open>string\<close> (lists of characters).  Every separator and
  prefix the code looks for is ASCII, so the operations below act on characters exactly as
  the Python methods of the same name do.
\<close>

definition startswith :: "string \<Rightarrow> string \<Rightarrow> bool" where
  \<comment> \<open>\<open>s.startswith(pre)\<close>\<close>
  "startswith s pre = (take (length pre) s = pre)"

definition lstrip :: "string \<Rightarrow> string \<Rightarrow> string" where
  \<comment> \<open>\<open>s.lstrip(chars)\<close>: drop leading characters that occur in \<open>chars\<close>\<close>
  "lstrip chars s = dropWhile (\<lambda>c. c \<in> set chars) s"

definition split1 :: "char \<Rightarrow> string \<Rightarrow> string list" where
  \<comment> \<open>\<open>s.split(sep, 1)\<close> for a one-character separator: at most one cut, at the first \<open>sep\<close>\<close>
  "split1 sep s =
     (case dropWhile (\<lambda>c. c \<noteq> sep) s of
        [] \<Rightarrow> [s]
      | _ # rest \<Rightarrow> [takeWhile (\<lambda>c. c \<noteq> sep) s, rest])"

definition rsplit1_head :: "char \<Rightarrow> string \<Rightarrow> string" where
  \<comment> \<open>\<open>s.rsplit(sep, 1)[0]\<close> for a one-character separator: the part before the last \<open>sep\<close>\<close>
  "rsplit1_head sep s =
     (case dropWhile (\<lambda>c. c \<noteq> sep) (rev s) of
        [] \<Rightarrow> s
      | _ # rest \<Rightarrow> rev rest)"

definition truthy_str :: "string option \<Rightarrow> bool" where
  \<comment> \<open>Python truth value of an \<open>Optional[str]\<close>: \<open>None\<close> and \<open>""\<close> are falsy\<close>
  "truthy_str v = (case v of None \<Rightarrow> False | Some s \<Rightarrow> s \<noteq> [])"

definition truthy_int :: "int option \<Rightarrow> bool" where
  \<comment> \<open>Python truth value of an \<open>Optional[int]\<close>: \<open>None\<close> and \<open>0\<close> are falsy\<close>
  "truthy_int v = (case v of None \<Rightarrow> False | Some n \<Rightarrow> n \<noteq> 0)"

section \<open>Errors\<close>

datatype error =
    ValueError string
  | KeyError
  | NotImplementedError

section \<open>PathCodec: \<open>_strip_protocol\<close> and \<open>split_path\<close>\<close>

definition strip_protocol :: "string \<Rightarrow> string \<Rightarrow> string" where
  \<comment> \<open>the string branch of \<open>_strip_protocol\<close>; \<open>rm\<close> is the class attribute \<open>root_marker\<close>\<close>
  "strip_protocol rm path =
     (let path_string = (if startswith path ''cos://'' then drop 5 path else path)
      in if path_string = [] then rm else path_string)"

definition strip_protocol_list :: "string \<Rightarrow> string list \<Rightarrow> string list" where
  \<comment> \<open>the list branch of \<open>_strip_protocol\<close>: element-wise\<close>
  "strip_protocol_list rm paths = map (strip_protocol rm) paths"

definition split_path :: "string \<Rightarrow> string \<Rightarrow> error + (string \<times> string)" where
  \<comment> \<open>the two-name unpacking of \<open>path.split("/", 1)\<close> raises unless the list has two parts\<close>
  "split_path rm path =
     (let p = lstrip ''/'' (strip_protocol rm path)
      in if CHR ''/'' \<notin> set p then Inr (p, '''')
         else (case split1 CHR ''/'' p of
                 [bucket_name, obj_name] \<Rightarrow> Inr (bucket_name, obj_name)
               | _ \<Rightarrow> Inl (ValueError ''unpack'')))"

text \<open>The two components \<open>split_path\<close> returns, read off its result.\<close>

definition bucket_of :: "string \<Rightarrow> string \<Rightarrow> string" where
  "bucket_of rm path = (case split_path rm path of Inr (bucket, key) \<Rightarrow> bucket | Inl e \<Rightarrow> [])"

definition key_of :: "string \<Rightarrow> string \<Rightarrow> string" where
  "key_of rm path = (case split_path rm path of Inr (bucket, key) \<Rightarrow> key | Inl e \<Rightarrow> [])"

section \<open>The filesystem framework the class extends\<close>

text \<open>
  \<open>BaseCOSFileSystem\<close> inherits \<open>root_marker\<close> and \<open>_parent\<close> from the filesystem
  framework.  The functions of the class take them as a parameter.
\<close>

record framework =
  root_marker :: string
  parent :: "string \<Rightarrow> string"

text \<open>
  Modelled from the spec: the framework's \<open>_parent\<close> path-ancestor helper and its root
  marker are not part of the sources.  The spec names \<open>_parent(path)\<close> as the
  path-ancestor helper of the framework, has the parent chain of \<open>bucket/a/b/c\<close> run
  through \<open>bucket/a/b\<close>, \<open>bucket/a\<close>, \<open>bucket\<close> to the root marker, and
  identifies the root with the absence of a bucket: the parent is what precedes the last
  \<open>/\<close> of the protocol-stripped path, and the root marker when there is no \<open>/\<close>.
\<close>

definition fsspec_parent :: "string \<Rightarrow> string \<Rightarrow> string" where
  "fsspec_parent rm path =
     (let p = strip_protocol rm path
      in if CHR ''/'' \<in> set p then rm @ lstrip rm (rsplit1_head CHR ''/'' p) else rm)"

definition fsspec :: framework where
  "fsspec = \<lparr>root_marker = [], parent = fsspec_parent []\<rparr>"

section \<open>The filesystem object\<close>

record 'v cosfs =
  endpoint :: "string option"
  default_block_size :: int
  default_cache_type :: string
  dircache :: "string \<rightharpoonup> 'v"

definition DEFAULT_BLOCK_SIZE :: int where
  "DEFAULT_BLOCK_SIZE = 5 * 2 ^ 20"

definition init :: "string option \<Rightarrow> string option \<Rightarrow> string \<Rightarrow> int option \<Rightarrow> 'v cosfs" where
  \<comment> \<open>\<open>__init__\<close>; \<open>env_endpoint\<close> is \<open>os.getenv("COS_ENDPOINT")\<close>; the listing cache
      starts empty\<close>
  "init endpoint_arg env_endpoint default_cache_type_arg default_block_size_arg =
     \<lparr>endpoint = (if truthy_str endpoint_arg then endpoint_arg else env_endpoint),
      default_block_size =
        (case default_block_size_arg of
           None \<Rightarrow> DEFAULT_BLOCK_SIZE
         | Some n \<Rightarrow> if n \<noteq> 0 then n else DEFAULT_BLOCK_SIZE),
      default_cache_type = default_cache_type_arg,
      dircache = Map.empty\<rparr>"

definition set_endpoint :: "string option \<Rightarrow> 'v cosfs \<Rightarrow> (error + unit) \<times> 'v cosfs" where
  "set_endpoint e fs =
     (if \<not> truthy_str e then (Inl (ValueError ''Not a valid endpoint''), fs)
      else (Inr (), fs\<lparr>endpoint := e\<rparr>))"

section \<open>ListingCache: \<open>invalidate_cache\<close>\<close>

text \<open>
  The \<open>while norm_path:\<close> loop.  Whether it ends depends on the framework's \<open>_parent\<close>,
  so the loop is a partial function: \<open>None\<close> stands for a loop that never returns.
\<close>

partial_function (option) invalidate_loop ::
  "(string \<Rightarrow> string) \<Rightarrow> string \<Rightarrow> (string \<rightharpoonup> 'v) \<Rightarrow> (string \<rightharpoonup> 'v) option" where
  "invalidate_loop par norm_path dc =
     (if norm_path \<noteq> [] then invalidate_loop par (par norm_path) (dc(norm_path := None))
      else Some dc)"

definition invalidate_cache :: "framework \<Rightarrow> string option \<Rightarrow> 'v cosfs \<Rightarrow> 'v cosfs option" where
  "invalidate_cache fw path fs =
     (case path of
        None \<Rightarrow> Some (fs\<lparr>dircache := Map.empty\<rparr>)
      | Some p \<Rightarrow>
          (let norm_path = lstrip ''/'' (strip_protocol (root_marker fw) p)
           in map_option (\<lambda>dc. fs\<lparr>dircache := dc\<rparr>)
                (invalidate_loop (parent fw) norm_path ((dircache fs)(norm_path := None)))))"

text \<open>
  Vocabulary for stating what invalidation does: the cache key a path is normalised to,
  a cache with a set of keys removed, and the one property of the framework's \<open>_parent\<close>
  that makes the loop end (a parent is shorter than the path it is the parent of).
\<close>

definition parent_shortens :: "framework \<Rightarrow> bool" where
  "parent_shortens fw = (\<forall>p. p \<noteq> [] \<longrightarrow> length (parent fw p) < length p)"

definition norm_key :: "framework \<Rightarrow> string \<Rightarrow> string" where
  "norm_key fw path = lstrip ''/'' (strip_protocol (root_marker fw) path)"

definition remove_keys :: "string set \<Rightarrow> (string \<rightharpoonup> 'v) \<Rightarrow> (string \<rightharpoonup> 'v)" where
  "remove_keys S dc = (\<lambda>k. if k \<in> S then None else dc k)"

section \<open>BatchPlanner: \<open>_verify_find_arguments\<close> and \<open>_get_batch_delete_key_list\<close>\<close>

definition verify_find_arguments ::
  "string \<Rightarrow> string \<Rightarrow> int option \<Rightarrow> bool \<Rightarrow> string \<Rightarrow> error + string" where
  "verify_find_arguments rm path maxdepth withdirs prefix =
     (let path' = strip_protocol rm path
      in case split_path rm path' of
           Inl e \<Rightarrow> Inl e
         | Inr (bucket, _) \<Rightarrow>
             if bucket = [] then Inl (ValueError ''Cannot traverse all of the buckets'')
             else if (withdirs \<or> truthy_int maxdepth) \<and> prefix \<noteq> []
             then Inl (ValueError
                    ''Can not specify 'prefix' option alongside 'withdirs'/'maxdepth' options.'')
             else Inr path')"

text \<open>
  The first loop of \<open>_get_batch_delete_key_list\<close>.  The Python set \<open>buckets\<close> is a list
  without duplicates (\<open>List.insert\<close> adds an element only if it is new); \<open>key_list\<close> grows
  at its end.
\<close>

fun collect_keys ::
  "string \<Rightarrow> string list \<Rightarrow> string list \<Rightarrow> string list \<Rightarrow> error + (string list \<times> string list)" where
  "collect_keys rm [] buckets key_list = Inr (buckets, key_list)"
| "collect_keys rm (path # rest) buckets key_list =
     (case split_path rm path of
        Inl e \<Rightarrow> Inl e
      | Inr (bucket, key) \<Rightarrow> collect_keys rm rest (List.insert bucket buckets) (key_list @ [key]))"

text \<open>The second loop: \<open>self.invalidate_cache(self._parent(path))\<close> for every path.\<close>

fun invalidate_parents :: "framework \<Rightarrow> string list \<Rightarrow> 'v cosfs \<Rightarrow> 'v cosfs option" where
  "invalidate_parents fw [] fs = Some fs"
| "invalidate_parents fw (path # rest) fs =
     (case invalidate_cache fw (Some (parent fw path)) fs of
        None \<Rightarrow> None
      | Some fs' \<Rightarrow> invalidate_parents fw rest fs')"

text \<open>
  The outcome pairs what the call returns or raises with the filesystem object as the call
  leaves it; \<open>None\<close> is a call that never returns.  \<open>buckets.pop()\<close> raises \<open>KeyError\<close> on
  the empty set, and is otherwise only reached with a single element.
\<close>

definition get_batch_delete_key_list ::
  "framework \<Rightarrow> string list \<Rightarrow> 'v cosfs \<Rightarrow> ((error + (string \<times> string list)) \<times> 'v cosfs) option" where
  "get_batch_delete_key_list fw pathlist fs =
     (case collect_keys (root_marker fw) pathlist [] [] of
        Inl e \<Rightarrow> Some (Inl e, fs)
      | Inr (buckets, key_list) \<Rightarrow>
          if length buckets > 1
          then Some (Inl (ValueError ''Bulk delete files should refer to only one bucket''), fs)
          else (case buckets of
                  [] \<Rightarrow> Some (Inl KeyError, fs)
                | bucket # _ \<Rightarrow>
                    if length pathlist > 1000
                    then Some (Inl (ValueError ''Max number of files to delete in one call is 1000''), fs)
                    else map_option (\<lambda>fs'. (Inr (bucket, key_list), fs'))
                           (invalidate_parents fw pathlist fs)))"

section \<open>Orchestrator: \<open>_open\<close> and \<open>touch\<close>\<close>

text \<open>The arguments \<open>_open\<close> hands to the \<open>OSSFile\<close> constructor.\<close>

record 'v ossfile =
  of_fs :: "'v cosfs"
  of_path :: string
  of_mode :: string
  of_block_size :: "int option"
  of_autocommit :: bool
  of_cache_options :: "string option"
  of_cache_type :: "string option"
  of_kwargs :: "string \<rightharpoonup> string option"

definition open_file ::
  "'v cosfs \<Rightarrow> string \<Rightarrow> string \<Rightarrow> int option \<Rightarrow> bool \<Rightarrow> string option \<Rightarrow>
   (string \<rightharpoonup> string option) \<Rightarrow> 'v ossfile" where
  \<comment> \<open>\<open>_open\<close>; \<open>kwargs.pop("cache_type", self._default_cache_type)\<close>: a keyword value
      may be \<open>None\<close>\<close>
  "open_file fs path mode block_size autocommit cache_options kwargs =
     (let cache_type = (case kwargs ''cache_type'' of
                          None \<Rightarrow> Some (default_cache_type fs)
                        | Some v \<Rightarrow> v)
      in \<lparr>of_fs = fs, of_path = path, of_mode = mode, of_block_size = block_size,
          of_autocommit = autocommit, of_cache_options = cache_options,
          of_cache_type = cache_type, of_kwargs = kwargs(''cache_type'' := None)\<rparr>)"

text \<open>
  \<open>touch\<close> calls two operations that live outside the class: \<open>self.exists(path)\<close> and the
  block \<open>with self.open(path, "wb", **kwargs): pass\<close>.  Both are parameters: \<open>exists_fn\<close>
  answers and may change the filesystem object, \<open>open_wb\<close> is the whole open-and-close of the
  write handle and may fail.  \<open>exists_fn\<close> is only asked when \<open>truncate\<close> is false.
\<close>

definition touch ::
  "framework \<Rightarrow> (string \<Rightarrow> 'v cosfs \<Rightarrow> bool \<times> 'v cosfs) \<Rightarrow>
   (string \<Rightarrow> 'v cosfs \<Rightarrow> (error + unit) \<times> 'v cosfs) \<Rightarrow>
   string \<Rightarrow> bool \<Rightarrow> 'v cosfs \<Rightarrow> ((error + unit) \<times> 'v cosfs) option" where
  "touch fw exists_fn open_wb path truncate_arg fs =
     (let (go, fs1) = (if truncate_arg then (True, fs)
                       else (let (ex, fs0) = exists_fn path fs in (\<not> ex, fs0)))
      in if go
         then (case invalidate_cache fw (Some (parent fw path)) fs1 of
                 None \<Rightarrow> None
               | Some fs2 \<Rightarrow> Some (open_wb path fs2))
         else Some (Inl NotImplementedError, fs1))"

section \<open>Facts about the string primitives\<close>

lemma startswith_append: "startswith s pre \<longleftrightarrow> (\<exists>t. s = pre @ t)"
  unfolding startswith_def
  by (metis append_eq_conv_conj append_take_drop_id)

lemma strip_protocol_cos_form:
  "startswith p ''cos://'' \<Longrightarrow> \<exists>t. strip_protocol rm p = CHR ''/'' # t"
  by (auto simp: startswith_append strip_protocol_def)

lemma strip_protocol_other:
  "\<not> startswith p ''cos://'' \<Longrightarrow> strip_protocol rm p = (if p = [] then rm else p)"
  by (simp add: strip_protocol_def)

lemma not_startswith_slash: "\<not> startswith (CHR ''/'' # t) ''cos://''"
  by (simp add: startswith_def)

text \<open>
  Claim C7: \<open>_strip_protocol\<close> is idempotent on every path string.  The root marker is the
  framework's; the only thing asked of it is that it is not itself a \<open>cos://\<close> path (the
  empty root marker is the case the class runs with).
\<close>

theorem strip_protocol_idempotent:
  assumes "\<not> startswith rm ''cos://''"
  shows "strip_protocol rm (strip_protocol rm p) = strip_protocol rm p"
proof (cases "startswith p ''cos://''")
  case True
  then obtain t where t: "strip_protocol rm p = CHR ''/'' # t"
    using strip_protocol_cos_form by blast
  show ?thesis unfolding t by (simp add: strip_protocol_other not_startswith_slash)
next
  case False
  then have "strip_protocol rm p = rm \<or> strip_protocol rm p = p \<and> p \<noteq> []"
    by (simp add: strip_protocol_other)
  then show ?thesis
    using assms False by (auto simp: strip_protocol_other)
qed

theorem strip_protocol_idempotent_witness:
  "\<not> startswith [] ''cos://'' \<and>
   strip_protocol [] ''cos://bucket/key'' = ''/bucket/key'' \<and>
   strip_protocol [] (strip_protocol [] ''cos://bucket/key'') = strip_protocol [] ''cos://bucket/key''"
  using strip_protocol_idempotent [of "[]" "''cos://bucket/key''"]
  by (simp add: strip_protocol_def startswith_def)

lemma takeWhile_absent: "sep \<notin> set s \<Longrightarrow> takeWhile (\<lambda>c. c \<noteq> sep) s = s"
  by (induction s) auto

lemma dropWhile_absent: "sep \<notin> set s \<Longrightarrow> dropWhile (\<lambda>c. c \<noteq> sep) s = []"
  by (induction s) auto

lemma dropWhile_present: "sep \<in> set s \<Longrightarrow> \<exists>rest. dropWhile (\<lambda>c. c \<noteq> sep) s = sep # rest"
  by (induction s) auto

lemma split1_present:
  "sep \<in> set s \<Longrightarrow>
   split1 sep s = [takeWhile (\<lambda>c. c \<noteq> sep) s, tl (dropWhile (\<lambda>c. c \<noteq> sep) s)]"
  using dropWhile_present [of sep s] by (auto simp: split1_def)

lemma split_path_Inr:
  "split_path rm path =
     Inr (takeWhile (\<lambda>c. c \<noteq> CHR ''/'') (lstrip ''/'' (strip_protocol rm path)),
          tl (dropWhile (\<lambda>c. c \<noteq> CHR ''/'') (lstrip ''/'' (strip_protocol rm path))))"
  by (simp add: split_path_def Let_def split1_present takeWhile_absent dropWhile_absent)

lemma split_path_projections: "split_path rm path = Inr (bucket_of rm path, key_of rm path)"
  by (simp add: bucket_of_def key_of_def split_path_Inr)

text \<open>
  Claim C8: \<open>_strip_protocol\<close> and \<open>split_path\<close> are functions of their arguments alone,
  and \<open>split_path\<close> never raises: on every string it returns a bucket and a key (the
  two-name unpacking always finds two parts).  When no \<open>/\<close> follows the bucket, the whole
  remaining string is the bucket and the key is empty.
\<close>

theorem split_path_total:
  "(\<exists>bucket key. split_path rm p = Inr (bucket, key)) \<and>
   (CHR ''/'' \<notin> set (lstrip ''/'' (strip_protocol rm p)) \<longrightarrow>
      split_path rm p = Inr (lstrip ''/'' (strip_protocol rm p), []))"
  by (simp add: split_path_Inr takeWhile_absent dropWhile_absent)

theorem split_path_total_witness:
  "CHR ''/'' \<notin> set (lstrip ''/'' (strip_protocol [] ''cos://bucket'')) \<and>
   lstrip ''/'' (strip_protocol [] ''cos://bucket'') = ''bucket'' \<and>
   split_path [] ''cos://bucket'' = Inr (''bucket'', [])"
  using split_path_total [of "[]" "''cos://bucket''"]
  by (simp add: strip_protocol_def startswith_def lstrip_def)

text \<open>
  Claim C1: what \<open>split_path\<close> returns on the three paths of the claim.  The first two are
  as the claim says.  On \<open>/bucket/key?versionId=v1\<close> the code returns two components, and
  the version qualifier stays inside the key: no version is extracted.
\<close>

theorem split_path_examples:
  "split_path rm ''/bucket/a/b/c'' = Inr (''bucket'', ''a/b/c'') \<and>
   split_path rm ''/bucket'' = Inr (''bucket'', []) \<and>
   split_path rm ''/bucket/key?versionId=v1'' = Inr (''bucket'', ''key?versionId=v1'')"
  by (simp add: split_path_def strip_protocol_def startswith_def lstrip_def split1_def)

section \<open>Facts about the invalidation loop\<close>

lemma invalidate_loop_Nil: "invalidate_loop par [] dc = Some dc"
  by (subst invalidate_loop.simps) simp

lemma invalidate_loop_step:
  "p \<noteq> [] \<Longrightarrow> invalidate_loop par p dc = invalidate_loop par (par p) (dc(p := None))"
  by (subst invalidate_loop.simps) simp

lemma remove_keys_empty: "remove_keys {} dc = dc"
  by (simp add: remove_keys_def)

lemma remove_keys_fun_upd: "remove_keys S (dc(k := None)) = remove_keys (insert k S) dc"
  by (rule ext) (simp add: remove_keys_def)

lemma remove_keys_twice: "remove_keys S (remove_keys T dc) = remove_keys (T \<union> S) dc"
  by (rule ext) (simp add: remove_keys_def)

lemma dom_remove_keys: "dom (remove_keys S dc) = dom dc - S"
  by (auto simp: remove_keys_def dom_def)

lemma invalidate_loop_total:
  assumes "\<forall>p. p \<noteq> [] \<longrightarrow> length (par p) < length p"
  shows "\<exists>S. [] \<notin> S \<and> (\<forall>dc. invalidate_loop par p dc = Some (remove_keys S dc))"
proof (induction p rule: length_induct)
  case (1 p)
  show ?case
  proof (cases "p = []")
    case True
    have "\<forall>dc::string \<rightharpoonup> 'a. invalidate_loop par p dc = Some (remove_keys {} dc)"
      by (simp add: True invalidate_loop_Nil remove_keys_empty)
    then show ?thesis by (intro exI [of _ "{}"]) simp
  next
    case False
    then have "length (par p) < length p" using assms by blast
    then obtain S where S: "[] \<notin> S"
      "\<forall>dc::string \<rightharpoonup> 'a. invalidate_loop par (par p) dc = Some (remove_keys S dc)"
      using 1 by blast
    have "\<forall>dc::string \<rightharpoonup> 'a. invalidate_loop par p dc = Some (remove_keys (insert p S) dc)"
      by (simp add: invalidate_loop_step False S(2) remove_keys_fun_upd)
    then show ?thesis using False S(1) by (intro exI [of _ "insert p S"]) simp
  qed
qed

lemma invalidate_cache_total:
  assumes "parent_shortens fw"
  shows "\<exists>S. norm_key fw path \<in> S \<and>
     (\<forall>fs::'v cosfs. invalidate_cache fw (Some path) fs =
        Some (fs\<lparr>dircache := remove_keys S (dircache fs)\<rparr>))"
proof -
  obtain S where S: "\<forall>dc::string \<rightharpoonup> 'v. invalidate_loop (parent fw) (norm_key fw path) dc = Some (remove_keys S dc)"
    using invalidate_loop_total [of "parent fw" "norm_key fw path"] assms
    unfolding parent_shortens_def by blast
  have "\<forall>fs::'v cosfs. invalidate_cache fw (Some path) fs =
          Some (fs\<lparr>dircache := remove_keys (insert (norm_key fw path) S) (dircache fs)\<rparr>)"
    by (simp add: invalidate_cache_def Let_def norm_key_def [symmetric] S remove_keys_fun_upd)
  then show ?thesis by (intro exI [of _ "insert (norm_key fw path) S"]) simp
qed

lemma invalidate_parents_total:
  assumes "parent_shortens fw"
  shows "\<exists>S. norm_key fw ` parent fw ` set paths \<subseteq> S \<and>
     (\<forall>fs::'v cosfs. invalidate_parents fw paths fs =
        Some (fs\<lparr>dircache := remove_keys S (dircache fs)\<rparr>))"
proof (induction paths)
  case Nil
  have "\<forall>fs::'v cosfs. invalidate_parents fw [] fs = Some (fs\<lparr>dircache := remove_keys {} (dircache fs)\<rparr>)"
    by (simp add: remove_keys_empty)
  then show ?case by (intro exI [of _ "{}"]) simp
next
  case (Cons p ps)
  obtain S where S: "norm_key fw ` parent fw ` set ps \<subseteq> S"
     "\<forall>fs::'v cosfs. invalidate_parents fw ps fs = Some (fs\<lparr>dircache := remove_keys S (dircache fs)\<rparr>)"
    using Cons by blast
  obtain T where T: "norm_key fw (parent fw p) \<in> T"
     "\<forall>fs::'v cosfs. invalidate_cache fw (Some (parent fw p)) fs = Some (fs\<lparr>dircache := remove_keys T (dircache fs)\<rparr>)"
    using invalidate_cache_total [OF assms, of "parent fw p"] by blast
  have "\<forall>fs::'v cosfs. invalidate_parents fw (p # ps) fs =
          Some (fs\<lparr>dircache := remove_keys (T \<union> S) (dircache fs)\<rparr>)"
    by (simp add: S(2) T(2) remove_keys_twice)
  moreover have "norm_key fw ` parent fw ` set (p # ps) \<subseteq> T \<union> S"
    using S(1) T(1) by auto
  ultimately show ?case by (intro exI [of _ "T \<union> S"]) simp
qed

section \<open>The framework model and the parent chain\<close>

lemma length_dropWhile_le_rev: "length (dropWhile P xs) \<le> length xs"
  by (induction xs) auto

lemma rsplit1_head_shorter:
  assumes "sep \<in> set s"
  shows "length (rsplit1_head sep s) < length s"
proof -
  from assms have "sep \<in> set (rev s)" by simp
  then obtain rest where r: "dropWhile (\<lambda>c. c \<noteq> sep) (rev s) = sep # rest"
    using dropWhile_present [of sep "rev s"] by auto
  have "length (dropWhile (\<lambda>c. c \<noteq> sep) (rev s)) \<le> length (rev s)"
    by (rule length_dropWhile_le_rev)
  then have "Suc (length rest) \<le> length s"
    by (simp add: r)
  then show ?thesis by (simp add: rsplit1_head_def r)
qed
lemma length_strip_protocol_le: "length (strip_protocol [] p) \<le> length p"
  by (simp add: strip_protocol_def Let_def)

lemma fsspec_parent_shortens: "parent_shortens fsspec"
  unfolding parent_shortens_def
proof (intro allI impI)
  fix p :: string
  assume "p \<noteq> []"
  show "length (parent fsspec p) < length p"
  proof (cases "CHR ''/'' \<in> set (strip_protocol [] p)")
    case True
    then have "length (rsplit1_head CHR ''/'' (strip_protocol [] p)) < length (strip_protocol [] p)"
      by (rule rsplit1_head_shorter)
    then show ?thesis
      using True length_strip_protocol_le [of p]
      by (simp add: fsspec_def fsspec_parent_def Let_def lstrip_def)
  next
    case False
    then show ?thesis using \<open>p \<noteq> []\<close>
      by (simp add: fsspec_def fsspec_parent_def Let_def)
  qed
qed

lemma fsspec_parent_chain:
  "parent fsspec ''bucket/a/b/c'' = ''bucket/a/b''"
  "parent fsspec ''bucket/a/b'' = ''bucket/a''"
  "parent fsspec ''bucket/a'' = ''bucket''"
  "parent fsspec ''bucket'' = []"
  by (simp_all add: fsspec_def fsspec_parent_def strip_protocol_def startswith_def lstrip_def
      rsplit1_head_def)

lemma invalidate_loop_chain:
  assumes "par ''bucket/a/b/c'' = ''bucket/a/b''"
    and "par ''bucket/a/b'' = ''bucket/a''"
    and "par ''bucket/a'' = ''bucket''"
    and "par ''bucket'' = []"
  shows "invalidate_loop par ''bucket/a/b/c'' dc =
           Some (remove_keys {''bucket/a/b/c'', ''bucket/a/b'', ''bucket/a'', ''bucket''} dc)"
proof -
  have "dc(''bucket/a/b/c'' := None, ''bucket/a/b'' := None, ''bucket/a'' := None,
               ''bucket'' := None) =
           remove_keys {''bucket/a/b/c'', ''bucket/a/b'', ''bucket/a'', ''bucket''} dc"
    by (rule ext) (simp add: remove_keys_def)
  then show ?thesis
    by (simp add: invalidate_loop_step invalidate_loop_Nil assms)
qed

lemma norm_key_chain_start:
  "lstrip ''/'' (strip_protocol rm ''bucket/a/b/c'') = ''bucket/a/b/c''"
  by (simp add: strip_protocol_def startswith_def lstrip_def)

text \<open>
  Claim C2, as amended: for every cache state, invalidating \<open>bucket/a/b/c\<close> removes the
  entries keyed \<open>bucket/a/b/c\<close>, \<open>bucket/a/b\<close>, \<open>bucket/a\<close> and \<open>bucket\<close> and no
  other entry.  The framework's \<open>_parent\<close> enters through the parent chain of the claim,
  which ends in the empty root marker; there the loop stops, and the entry keyed by the root
  marker stays in the cache.
\<close>

theorem invalidate_cache_chain:
  assumes "parent fw ''bucket/a/b/c'' = ''bucket/a/b''"
    and "parent fw ''bucket/a/b'' = ''bucket/a''"
    and "parent fw ''bucket/a'' = ''bucket''"
    and "parent fw ''bucket'' = []"
  shows "invalidate_cache fw (Some ''bucket/a/b/c'') fs =
           Some (fs\<lparr>dircache :=
                   remove_keys {''bucket/a/b/c'', ''bucket/a/b'', ''bucket/a'', ''bucket''}
                     (dircache fs)\<rparr>)"
  by (simp add: invalidate_cache_def norm_key_chain_start invalidate_loop_chain [OF assms]
      remove_keys_fun_upd)

theorem invalidate_cache_chain_witness:
  "parent fsspec ''bucket/a/b/c'' = ''bucket/a/b'' \<and>
   parent fsspec ''bucket/a/b'' = ''bucket/a'' \<and>
   parent fsspec ''bucket/a'' = ''bucket'' \<and>
   parent fsspec ''bucket'' = [] \<and>
   invalidate_cache fsspec (Some ''bucket/a/b/c'')
     \<lparr>endpoint = None, default_block_size = 5242880, default_cache_type = ''readahead'',
      dircache = [''bucket/a'' \<mapsto> [''b''], ''other/x'' \<mapsto> [''y'']]\<rparr> =
   Some \<lparr>endpoint = None, default_block_size = 5242880, default_cache_type = ''readahead'',
      dircache = remove_keys {''bucket/a/b/c'', ''bucket/a/b'', ''bucket/a'', ''bucket''}
                   [''bucket/a'' \<mapsto> [''b''], ''other/x'' \<mapsto> [''y'']]\<rparr> \<and>
   remove_keys {''bucket/a/b/c'', ''bucket/a/b'', ''bucket/a'', ''bucket''}
     [''bucket/a'' \<mapsto> [''b''], ''other/x'' \<mapsto> [''y'']] ''bucket/a'' = None \<and>
   remove_keys {''bucket/a/b/c'', ''bucket/a/b'', ''bucket/a'', ''bucket''}
     [''bucket/a'' \<mapsto> [''b''], ''other/x'' \<mapsto> [''y'']] ''other/x'' = Some [''y'']"
  using invalidate_cache_chain [of fsspec
      "\<lparr>endpoint = None, default_block_size = 5242880, default_cache_type = ''readahead'',
        dircache = [''bucket/a'' \<mapsto> [''b''], ''other/x'' \<mapsto> [''y'']]\<rparr>",
      OF fsspec_parent_chain]
  by (simp add: fsspec_parent_chain remove_keys_def)

theorem invalidate_cache_root_counterexample:
  "root_marker fsspec = [] \<and>
   map_option (\<lambda>fs'. dircache fs' [])
     (invalidate_cache fsspec (Some ''bucket/a/b/c'')
        \<lparr>endpoint = None, default_block_size = 5242880, default_cache_type = ''readahead'',
         dircache = [[] \<mapsto> [''bucket'']]\<rparr>) = Some (Some [''bucket''])"
proof -
  have "root_marker fsspec = []"
    by (simp add: fsspec_def)
  moreover have "map_option (\<lambda>fs'. dircache fs' [])
     (invalidate_cache fsspec (Some ''bucket/a/b/c'')
        \<lparr>endpoint = None, default_block_size = 5242880, default_cache_type = ''readahead'',
         dircache = [[] \<mapsto> [''bucket'']]\<rparr>) = Some (Some [''bucket''])"
    by (simp add: invalidate_cache_def norm_key_chain_start
        invalidate_loop_chain [OF fsspec_parent_chain] remove_keys_def)
  ultimately show ?thesis by simp
qed

lemma invalidate_loop_keeps_root:
  assumes "invalidate_loop par p dc = Some dc'"
  shows "dc' [] = dc []"
proof (rule invalidate_loop.raw_induct [where P = "\<lambda>par p dc y. y [] = dc []", OF _ assms])
  fix f :: "(string \<Rightarrow> string) \<Rightarrow> string \<Rightarrow> (string \<rightharpoonup> 'a) \<Rightarrow> (string \<rightharpoonup> 'a) option"
    and par p dc y
  assume ih: "\<And>par p dc y. f par p dc = Some y \<Longrightarrow> y [] = dc []"
    and body: "(if p \<noteq> [] then f par (par p) (dc(p := None)) else Some dc) = Some y"
  show "y [] = dc []"
  proof (cases "p = []")
    case True
    with body show ?thesis by simp
  next
    case False
    with body have "f par (par p) (dc(p := None)) = Some y" by simp
    then have "y [] = (dc(p := None)) []" by (rule ih)
    with False show ?thesis by simp
  qed
qed

lemma invalidate_cache_keeps_root:
  assumes "invalidate_cache fw (Some path) fs = Some fs'" and "norm_key fw path \<noteq> []"
  shows "dircache fs' [] = dircache fs []"
proof -
  from assms(1) obtain dc' where
    l: "invalidate_loop (parent fw) (norm_key fw path) ((dircache fs)(norm_key fw path := None)) = Some dc'"
    and f: "fs' = fs\<lparr>dircache := dc'\<rparr>"
    by (auto simp: invalidate_cache_def Let_def norm_key_def)
  from invalidate_loop_keeps_root [OF l] assms(2) f show ?thesis by simp
qed

section \<open>Facts about the batch planner\<close>

lemma collect_keys_fold:
  "collect_keys rm ps bs ks =
     Inr (fold (\<lambda>p acc. List.insert (bucket_of rm p) acc) ps bs, ks @ map (key_of rm) ps)"
  by (induction ps arbitrary: bs ks) (simp_all add: split_path_projections)

lemma set_fold_insert:
  "set (fold (\<lambda>p acc. List.insert (f p) acc) ps bs) = set bs \<union> f ` set ps"
  by (induction ps arbitrary: bs) auto

lemma distinct_fold_insert:
  "distinct bs \<Longrightarrow> distinct (fold (\<lambda>p acc. List.insert (f p) acc) ps bs)"
  by (induction ps arbitrary: bs) auto

lemma length_buckets:
  "length (fold (\<lambda>p acc. List.insert (f p) acc) ps []) = card (f ` set ps)"
proof -
  have "distinct (fold (\<lambda>p acc. List.insert (f p) acc) ps [])"
    by (rule distinct_fold_insert) simp
  then have "length (fold (\<lambda>p acc. List.insert (f p) acc) ps []) =
      card (set (fold (\<lambda>p acc. List.insert (f p) acc) ps []))"
    by (simp add: distinct_card)
  then show ?thesis by (simp add: set_fold_insert)
qed

lemma buckets_single:
  assumes "f ` set ps = {b}"
  shows "fold (\<lambda>p acc. List.insert (f p) acc) ps [] = [b]"
proof -
  let ?bs = "fold (\<lambda>p acc. List.insert (f p) acc) ps []"
  have s: "set ?bs = {b}" using assms by (simp add: set_fold_insert)
  have "length ?bs = 1" using assms by (simp add: length_buckets)
  then obtain x where x: "?bs = [x]"
    by (cases ?bs) auto
  with s show ?thesis by simp
qed

lemma get_batch_cross_bucket:
  assumes "1 < card (bucket_of (root_marker fw) ` set pathlist)"
  shows "get_batch_delete_key_list fw pathlist fs =
           Some (Inl (ValueError ''Bulk delete files should refer to only one bucket''), fs)"
  using assms by (simp add: get_batch_delete_key_list_def collect_keys_fold length_buckets)

lemma get_batch_too_many:
  assumes "\<not> 1 < card (bucket_of (root_marker fw) ` set pathlist)" and "1000 < length pathlist"
  shows "get_batch_delete_key_list fw pathlist fs =
           Some (Inl (ValueError ''Max number of files to delete in one call is 1000''), fs)"
proof -
  let ?bs = "fold (\<lambda>p acc. List.insert (bucket_of (root_marker fw) p) acc) pathlist []"
  from assms(2) have "pathlist \<noteq> []" by auto
  then have "set ?bs \<noteq> {}" by (simp add: set_fold_insert)
  then obtain b rest where "?bs = b # rest" by (cases ?bs) auto
  then show ?thesis
    using assms by (simp add: get_batch_delete_key_list_def collect_keys_fold length_buckets [symmetric])
qed

lemma get_batch_empty:
  "get_batch_delete_key_list fw [] fs = Some (Inl KeyError, fs)"
  by (simp add: get_batch_delete_key_list_def)

lemma get_batch_ok:
  assumes "length pathlist \<le> 1000" and "bucket_of (root_marker fw) ` set pathlist = {bucket}"
  shows "get_batch_delete_key_list fw pathlist fs =
           map_option (\<lambda>fs'. (Inr (bucket, map (key_of (root_marker fw)) pathlist), fs'))
             (invalidate_parents fw pathlist fs)"
  using assms
  by (simp add: get_batch_delete_key_list_def collect_keys_fold buckets_single)


lemma invalidate_parents_removes:
  assumes "parent_shortens fw"
  shows "\<exists>fs'. invalidate_parents fw pathlist fs = Some fs' \<and>
           (\<forall>p\<in>set pathlist. norm_key fw (parent fw p) \<notin> dom (dircache fs'))"
proof -
  obtain S where S: "norm_key fw ` parent fw ` set pathlist \<subseteq> S"
    and r: "\<forall>fs::'a cosfs. invalidate_parents fw pathlist fs =
              Some (fs\<lparr>dircache := remove_keys S (dircache fs)\<rparr>)"
    using invalidate_parents_total [OF assms, of pathlist] by auto
  have "\<forall>p\<in>set pathlist. norm_key fw (parent fw p) \<notin> dom (remove_keys S (dircache fs))"
    using S by (auto simp: dom_remove_keys)
  then show ?thesis
    by (intro exI [of _ "fs\<lparr>dircache := remove_keys S (dircache fs)\<rparr>"]) (simp add: r)
qed

text \<open>
  Claim C3: \<open>_get_batch_delete_key_list\<close> raises \<open>ValueError\<close> when the paths name more
  than one bucket, and when there are more than 1000 of them; on at most 1000 paths that all
  name one bucket (so at least one path) it returns that bucket and the keys of the paths,
  in the order of the paths and with repetitions kept, and the cache it leaves has no entry
  for the parent directory of any of the paths.  The framework's \<open>_parent\<close> is a parameter:
  the loop of each invalidation ends because a parent is shorter than its path.
\<close>

theorem get_batch_delete_key_list_spec:
  assumes "parent_shortens fw"
  shows "(1 < card (bucket_of (root_marker fw) ` set pathlist) \<longrightarrow>
            map_option fst (get_batch_delete_key_list fw pathlist fs) =
              Some (Inl (ValueError ''Bulk delete files should refer to only one bucket''))) \<and>
         (1000 < length pathlist \<longrightarrow>
            map_option fst (get_batch_delete_key_list fw pathlist fs) =
              Some (Inl (ValueError
                (if 1 < card (bucket_of (root_marker fw) ` set pathlist)
                 then ''Bulk delete files should refer to only one bucket''
                 else ''Max number of files to delete in one call is 1000'')))) \<and>
         (length pathlist \<le> 1000 \<and> bucket_of (root_marker fw) ` set pathlist = {bucket} \<longrightarrow>
            (\<exists>fs'. get_batch_delete_key_list fw pathlist fs =
                     Some (Inr (bucket, map (key_of (root_marker fw)) pathlist), fs') \<and>
                   (\<forall>p\<in>set pathlist. norm_key fw (parent fw p) \<notin> dom (dircache fs'))))"
proof (intro conjI impI)
  assume "1 < card (bucket_of (root_marker fw) ` set pathlist)"
  then show "map_option fst (get_batch_delete_key_list fw pathlist fs) =
      Some (Inl (ValueError ''Bulk delete files should refer to only one bucket''))"
    by (simp add: get_batch_cross_bucket)
next
  assume "1000 < length pathlist"
  then show "map_option fst (get_batch_delete_key_list fw pathlist fs) =
      Some (Inl (ValueError
        (if 1 < card (bucket_of (root_marker fw) ` set pathlist)
         then ''Bulk delete files should refer to only one bucket''
         else ''Max number of files to delete in one call is 1000'')))"
    by (cases "1 < card (bucket_of (root_marker fw) ` set pathlist)")
      (simp_all add: get_batch_cross_bucket get_batch_too_many)
next
  assume a: "length pathlist \<le> 1000 \<and> bucket_of (root_marker fw) ` set pathlist = {bucket}"
  obtain fs' where i: "invalidate_parents fw pathlist fs = Some fs'"
    and d: "\<forall>p\<in>set pathlist. norm_key fw (parent fw p) \<notin> dom (dircache fs')"
    using invalidate_parents_removes [OF assms, of pathlist fs] by auto
  from a have "get_batch_delete_key_list fw pathlist fs =
      Some (Inr (bucket, map (key_of (root_marker fw)) pathlist), fs')"
    by (simp add: get_batch_ok i)
  with d show "\<exists>fs'. get_batch_delete_key_list fw pathlist fs =
                     Some (Inr (bucket, map (key_of (root_marker fw)) pathlist), fs') \<and>
                   (\<forall>p\<in>set pathlist. norm_key fw (parent fw p) \<notin> dom (dircache fs'))"
    by (intro exI [of _ fs']) simp
qed

lemma split_path_b1x: "split_path [] ''b1/x'' = Inr (''b1'', ''x'')"
  by (simp add: split_path_def strip_protocol_def startswith_def lstrip_def split1_def)

lemma split_path_b2y: "split_path [] ''b2/y'' = Inr (''b2'', ''y'')"
  by (simp add: split_path_def strip_protocol_def startswith_def lstrip_def split1_def)

lemma split_path_bxy: "split_path [] ''b/x/y'' = Inr (''b'', ''x/y'')"
  by (simp add: split_path_def strip_protocol_def startswith_def lstrip_def split1_def)

lemma split_path_cos_bz: "split_path [] ''cos://b/z'' = Inr (''b'', ''z'')"
  by (simp add: split_path_def strip_protocol_def startswith_def lstrip_def split1_def)

lemma norm_parent_bxy: "norm_key fsspec (parent fsspec ''b/x/y'') = ''b/x''"
  by (simp add: norm_key_def fsspec_def fsspec_parent_def strip_protocol_def startswith_def
      lstrip_def rsplit1_head_def)

lemma norm_parent_cos_bz: "norm_key fsspec (parent fsspec ''cos://b/z'') = ''b''"
  by (simp add: norm_key_def fsspec_def fsspec_parent_def strip_protocol_def startswith_def
      lstrip_def rsplit1_head_def)

lemma root_marker_fsspec: "root_marker fsspec = []"
  by (simp add: fsspec_def)


theorem get_batch_delete_key_list_spec_witness:
  "parent_shortens fsspec \<and>
   1 < card (bucket_of (root_marker fsspec) ` set [''b1/x'', ''b2/y'']) \<and>
   map_option fst (get_batch_delete_key_list fsspec [''b1/x'', ''b2/y'']
       \<lparr>endpoint = None, default_block_size = 5242880, default_cache_type = ''readahead'',
        dircache = [''b/x'' \<mapsto> [''y''], ''b'' \<mapsto> [''x'', ''z'']]\<rparr>) =
     Some (Inl (ValueError ''Bulk delete files should refer to only one bucket'')) \<and>
   1000 < length (replicate 1001 ''b/x/y'') \<and>
   map_option fst (get_batch_delete_key_list fsspec (replicate 1001 ''b/x/y'')
       \<lparr>endpoint = None, default_block_size = 5242880, default_cache_type = ''readahead'',
        dircache = [''b/x'' \<mapsto> [''y''], ''b'' \<mapsto> [''x'', ''z'']]\<rparr>) =
     Some (Inl (ValueError ''Max number of files to delete in one call is 1000'')) \<and>
   length [''b/x/y'', ''b/x/y'', ''cos://b/z''] \<le> 1000 \<and>
   bucket_of (root_marker fsspec) ` set [''b/x/y'', ''b/x/y'', ''cos://b/z''] = {''b''} \<and>
   map_option (\<lambda>(r, fs'). (r, dircache fs' ''b/x'', dircache fs' ''b''))
     (get_batch_delete_key_list fsspec [''b/x/y'', ''b/x/y'', ''cos://b/z'']
       \<lparr>endpoint = None, default_block_size = 5242880, default_cache_type = ''readahead'',
        dircache = [''b/x'' \<mapsto> [''y''], ''b'' \<mapsto> [''x'', ''z'']]\<rparr>) =
     Some (Inr (''b'', [''x/y'', ''x/y'', ''z'']), None, None)"
proof -
  let ?fs = "\<lparr>endpoint = None, default_block_size = 5242880, default_cache_type = ''readahead'',
        dircache = [''b/x'' \<mapsto> [''y''], ''b'' \<mapsto> [''x'', ''z'']]\<rparr> :: string list cosfs"
  note t = get_batch_delete_key_list_spec [OF fsspec_parent_shortens]
  have h1: "1 < card (bucket_of (root_marker fsspec) ` set [''b1/x'', ''b2/y''])"
    by (simp add: bucket_of_def root_marker_fsspec split_path_b1x split_path_b2y)
  have c1: "map_option fst (get_batch_delete_key_list fsspec [''b1/x'', ''b2/y''] ?fs) =
     Some (Inl (ValueError ''Bulk delete files should refer to only one bucket''))"
    using t [where pathlist = "[''b1/x'', ''b2/y'']" and fs = ?fs] h1 by blast
  have b2: "bucket_of (root_marker fsspec) ` set (replicate 1001 ''b/x/y'') = {''b''}"
    by (simp add: bucket_of_def root_marker_fsspec split_path_bxy)
  have h2: "1000 < length (replicate 1001 ''b/x/y'')"
    by simp
  have c2: "map_option fst (get_batch_delete_key_list fsspec (replicate 1001 ''b/x/y'') ?fs) =
     Some (Inl (ValueError ''Max number of files to delete in one call is 1000''))"
    using t [where pathlist = "replicate 1001 ''b/x/y''" and fs = ?fs] h2 by (simp add: b2)
  have h3: "length [''b/x/y'', ''b/x/y'', ''cos://b/z''] \<le> 1000"
    by simp
  have b3: "bucket_of (root_marker fsspec) ` set [''b/x/y'', ''b/x/y'', ''cos://b/z''] = {''b''}"
    by (simp add: bucket_of_def root_marker_fsspec split_path_bxy split_path_cos_bz)
  have k3: "map (key_of (root_marker fsspec)) [''b/x/y'', ''b/x/y'', ''cos://b/z''] =
      [''x/y'', ''x/y'', ''z'']"
    by (simp add: key_of_def root_marker_fsspec split_path_bxy split_path_cos_bz)
  obtain fs' where r: "get_batch_delete_key_list fsspec [''b/x/y'', ''b/x/y'', ''cos://b/z''] ?fs =
      Some (Inr (''b'', [''x/y'', ''x/y'', ''z'']), fs')"
    and d: "\<forall>p\<in>set [''b/x/y'', ''b/x/y'', ''cos://b/z''].
              norm_key fsspec (parent fsspec p) \<notin> dom (dircache fs')"
    using t [where pathlist = "[''b/x/y'', ''b/x/y'', ''cos://b/z'']" and fs = ?fs
        and bucket = "''b''"] h3 b3 unfolding k3 by blast
  from d have "dircache fs' ''b/x'' = None" and "dircache fs' ''b'' = None"
    by (simp_all add: norm_parent_bxy norm_parent_cos_bz dom_def)
  then have c3: "map_option (\<lambda>(r, fs'). (r, dircache fs' ''b/x'', dircache fs' ''b''))
     (get_batch_delete_key_list fsspec [''b/x/y'', ''b/x/y'', ''cos://b/z''] ?fs) =
     Some (Inr (''b'', [''x/y'', ''x/y'', ''z'']), None, None)"
    by (simp add: r)
  from fsspec_parent_shortens h1 c1 h2 c2 h3 b3 c3 show ?thesis
    by (intro conjI)
qed

text \<open>
  Claim C10: on the empty path list \<open>_get_batch_delete_key_list\<close> neither returns a result
  nor raises \<open>ValueError\<close>: \<open>buckets.pop()\<close> raises \<open>KeyError\<close> on the empty set, before
  the invalidation loop, so the filesystem object and its cache are as they were.
\<close>

theorem get_batch_delete_key_list_empty:
  "get_batch_delete_key_list fw [] fs = Some (Inl KeyError, fs)"
  by (rule get_batch_empty)

text \<open>
  Claim C6: a validation error leaves no partial state.  Whenever
  \<open>_get_batch_delete_key_list\<close> raises, the filesystem object (its listing cache included) is
  the one the call started with, and it does raise \<open>ValueError\<close> on paths of more than one
  bucket and on more than 1000 paths; \<open>set_endpoint\<close> on a falsy endpoint (\<open>None\<close> or the
  empty string) raises \<open>ValueError\<close> and leaves the object, so the stored endpoint, as it was.
\<close>

theorem validation_errors_keep_state:
  "(1 < card (bucket_of (root_marker fw) ` set pathlist) \<or> 1000 < length pathlist \<longrightarrow>
      (\<exists>msg. get_batch_delete_key_list fw pathlist fs = Some (Inl (ValueError msg), fs))) \<and>
   (get_batch_delete_key_list fw pathlist fs = Some (Inl err, fs') \<longrightarrow> fs' = fs) \<and>
   (\<not> truthy_str e \<longrightarrow>
      set_endpoint e fs = (Inl (ValueError ''Not a valid endpoint''), fs))"
proof (intro conjI impI)
  assume "1 < card (bucket_of (root_marker fw) ` set pathlist) \<or> 1000 < length pathlist"
  then show "\<exists>msg. get_batch_delete_key_list fw pathlist fs = Some (Inl (ValueError msg), fs)"
    by (cases "1 < card (bucket_of (root_marker fw) ` set pathlist)")
      (simp_all add: get_batch_cross_bucket get_batch_too_many)
next
  assume "get_batch_delete_key_list fw pathlist fs = Some (Inl err, fs')"
  then show "fs' = fs"
    by (auto simp: get_batch_delete_key_list_def collect_keys_fold
        split: if_splits list.splits)
next
  assume "\<not> truthy_str e"
  then show "set_endpoint e fs = (Inl (ValueError ''Not a valid endpoint''), fs)"
    by (simp add: set_endpoint_def)
qed


theorem validation_errors_keep_state_witness:
  "1 < card (bucket_of (root_marker fsspec) ` set [''b1/x'', ''b2/y'']) \<and>
   (\<exists>msg. get_batch_delete_key_list fsspec [''b1/x'', ''b2/y'']
       \<lparr>endpoint = Some ''https://cos.example'', default_block_size = 5242880,
        default_cache_type = ''readahead'', dircache = [''b1'' \<mapsto> [''x'']]\<rparr> =
     Some (Inl (ValueError msg),
       \<lparr>endpoint = Some ''https://cos.example'', default_block_size = 5242880,
        default_cache_type = ''readahead'', dircache = [''b1'' \<mapsto> [''x'']]\<rparr>)) \<and>
   \<not> truthy_str (Some []) \<and>
   set_endpoint (Some [])
       \<lparr>endpoint = Some ''https://cos.example'', default_block_size = 5242880,
        default_cache_type = ''readahead'', dircache = [''b1'' \<mapsto> [''x'']]\<rparr> =
     (Inl (ValueError ''Not a valid endpoint''),
       \<lparr>endpoint = Some ''https://cos.example'', default_block_size = 5242880,
        default_cache_type = ''readahead'', dircache = [''b1'' \<mapsto> [''x'']]\<rparr>)"
proof -
  let ?fs = "\<lparr>endpoint = Some ''https://cos.example'', default_block_size = 5242880,
        default_cache_type = ''readahead'', dircache = [''b1'' \<mapsto> [''x'']]\<rparr> :: string list cosfs"
  have h1: "1 < card (bucket_of (root_marker fsspec) ` set [''b1/x'', ''b2/y''])"
    by (simp add: bucket_of_def root_marker_fsspec split_path_b1x split_path_b2y)
  have h2: "\<not> truthy_str (Some [])"
    by (simp add: truthy_str_def)
  have c1: "\<exists>msg. get_batch_delete_key_list fsspec [''b1/x'', ''b2/y''] ?fs =
      Some (Inl (ValueError msg), ?fs)"
    using validation_errors_keep_state [where fw = fsspec and pathlist = "[''b1/x'', ''b2/y'']"
        and fs = ?fs] h1 by blast
  have c2: "set_endpoint (Some []) ?fs = (Inl (ValueError ''Not a valid endpoint''), ?fs)"
    using validation_errors_keep_state [where e = "Some []" and fs = ?fs] h2 by blast
  from h1 c1 h2 c2 show ?thesis
    by (intro conjI)
qed

section \<open>Facts about the validation of find arguments\<close>

lemma verify_find_arguments_cases:
  "verify_find_arguments rm path maxdepth withdirs prefix =
     (if bucket_of rm (strip_protocol rm path) = []
      then Inl (ValueError ''Cannot traverse all of the buckets'')
      else if (withdirs \<or> truthy_int maxdepth) \<and> prefix \<noteq> []
      then Inl (ValueError
             ''Can not specify 'prefix' option alongside 'withdirs'/'maxdepth' options.'')
      else Inr (strip_protocol rm path))"
  by (simp add: verify_find_arguments_def Let_def
      split_path_projections [of rm "strip_protocol rm path"])

text \<open>
  Claim C5, as amended: \<open>_verify_find_arguments\<close> raises \<open>ValueError\<close> when the path has
  no bucket; on a path with a bucket it raises \<open>ValueError\<close> when a non-empty prefix comes
  with \<open>withdirs\<close> set or with a \<open>maxdepth\<close> that is neither \<open>None\<close> nor \<open>0\<close>; in every
  other case, so with a prefix alone, it returns the protocol-stripped path.
\<close>

theorem verify_find_arguments_spec:
  "(bucket_of rm (strip_protocol rm path) = [] \<longrightarrow>
      verify_find_arguments rm path maxdepth withdirs prefix =
        Inl (ValueError ''Cannot traverse all of the buckets'')) \<and>
   (bucket_of rm (strip_protocol rm path) \<noteq> [] \<and> prefix \<noteq> [] \<and>
    (withdirs \<or> truthy_int maxdepth) \<longrightarrow>
      verify_find_arguments rm path maxdepth withdirs prefix =
        Inl (ValueError
          ''Can not specify 'prefix' option alongside 'withdirs'/'maxdepth' options.'')) \<and>
   (bucket_of rm (strip_protocol rm path) \<noteq> [] \<and>
    \<not> (prefix \<noteq> [] \<and> (withdirs \<or> truthy_int maxdepth)) \<longrightarrow>
      verify_find_arguments rm path maxdepth withdirs prefix = Inr (strip_protocol rm path))"
  by (auto simp: verify_find_arguments_cases)

lemma bucket_of_root: "bucket_of [] (strip_protocol [] ''cos://'') = []"
  by (simp add: bucket_of_def split_path_def strip_protocol_def startswith_def lstrip_def)

lemma strip_protocol_cos_bucket_dir: "strip_protocol [] ''cos://bucket/dir'' = ''/bucket/dir''"
  by (simp add: strip_protocol_def startswith_def)

lemma bucket_of_bucket_dir: "bucket_of [] ''/bucket/dir'' = ''bucket''"
  by (simp add: bucket_of_def split_path_def strip_protocol_def startswith_def lstrip_def
      split1_def)

theorem verify_find_arguments_spec_witness:
  "bucket_of [] (strip_protocol [] ''cos://'') = [] \<and>
   verify_find_arguments [] ''cos://'' None False [] =
     Inl (ValueError ''Cannot traverse all of the buckets'') \<and>
   bucket_of [] (strip_protocol [] ''cos://bucket/dir'') \<noteq> [] \<and>
   ''x'' \<noteq> [] \<and> truthy_int (Some 2) \<and>
   verify_find_arguments [] ''cos://bucket/dir'' (Some 2) False ''x'' =
     Inl (ValueError
       ''Can not specify 'prefix' option alongside 'withdirs'/'maxdepth' options.'') \<and>
   \<not> truthy_int None \<and>
   verify_find_arguments [] ''cos://bucket/dir'' None False ''x'' = Inr ''/bucket/dir''"
proof -
  note b = strip_protocol_cos_bucket_dir bucket_of_bucket_dir
  have h2: "bucket_of [] (strip_protocol [] ''cos://bucket/dir'') \<noteq> []"
    by (simp add: b)
  have t2: "truthy_int (Some 2)" and t3: "\<not> truthy_int None"
    by (simp_all add: truthy_int_def)
  have c1: "verify_find_arguments [] ''cos://'' None False [] =
     Inl (ValueError ''Cannot traverse all of the buckets'')"
    using verify_find_arguments_spec [where rm = "[]" and path = "''cos://''" and maxdepth = None and withdirs = False
        and prefix = "[]"] bucket_of_root
    by blast
  have c2: "verify_find_arguments [] ''cos://bucket/dir'' (Some 2) False ''x'' =
     Inl (ValueError
       ''Can not specify 'prefix' option alongside 'withdirs'/'maxdepth' options.'')"
    using verify_find_arguments_spec [where rm = "[]" and path = "''cos://bucket/dir''"
        and maxdepth = "Some 2" and withdirs = False and prefix = "''x''"]
      h2 t2 by simp
  have c3: "verify_find_arguments [] ''cos://bucket/dir'' None False ''x'' = Inr ''/bucket/dir''"
    using verify_find_arguments_spec [where rm = "[]" and path = "''cos://bucket/dir''"
        and maxdepth = None and withdirs = False and prefix = "''x''"]
      h2 t3 by (simp add: b)
  from bucket_of_root c1 h2 t2 c2 t3 c3 show ?thesis
    by simp
qed

theorem verify_find_arguments_maxdepth_zero_counterexample:
  "verify_find_arguments [] ''bucket'' (Some 0) False ''x'' = Inr ''bucket''"
  by (simp add: verify_find_arguments_def split_path_def strip_protocol_def startswith_def
      lstrip_def truthy_int_def)


section \<open>Facts about touch and open\<close>

lemma invalidate_cache_removes:
  assumes "parent_shortens fw"
  shows "\<exists>fs'. invalidate_cache fw (Some path) fs = Some fs' \<and>
           norm_key fw path \<notin> dom (dircache fs')"
proof -
  obtain S where S: "norm_key fw path \<in> S"
    and r: "\<forall>fs::'a cosfs. invalidate_cache fw (Some path) fs =
              Some (fs\<lparr>dircache := remove_keys S (dircache fs)\<rparr>)"
    using invalidate_cache_total [OF assms, of path] by auto
  have "norm_key fw path \<notin> dom (remove_keys S (dircache fs))"
    using S by (simp add: dom_remove_keys)
  then show ?thesis
    by (intro exI [of _ "fs\<lparr>dircache := remove_keys S (dircache fs)\<rparr>"]) (simp add: r)
qed

lemma touch_go:
  assumes "truncate_arg \<or> \<not> fst (exists_fn path fs)"
  shows "touch fw exists_fn open_wb path truncate_arg fs =
           (case invalidate_cache fw (Some (parent fw path))
                   (if truncate_arg then fs else snd (exists_fn path fs)) of
              None \<Rightarrow> None
            | Some fs2 \<Rightarrow> Some (open_wb path fs2))"
  using assms by (auto simp: touch_def Let_def split: prod.splits)

lemma touch_refuse:
  assumes "\<not> truncate_arg" and "fst (exists_fn path fs)"
  shows "touch fw exists_fn open_wb path truncate_arg fs =
           Some (Inl NotImplementedError, snd (exists_fn path fs))"
  using assms by (auto simp: touch_def Let_def split: prod.splits)

text \<open>
  Claim C4: when \<open>truncate\<close> is true, or the path does not exist (whatever \<open>truncate\<close>
  is), \<open>touch\<close> invalidates the listing cache of the parent directory, which ends and leaves
  no entry for the parent, and then does the open-and-close of the write handle on the path,
  whose outcome is the outcome of \<open>touch\<close>; when \<open>truncate\<close> is false and the path exists,
  \<open>touch\<close> raises \<open>NotImplementedError\<close>.  \<open>exists\<close>, \<open>open\<close> and the framework's
  \<open>_parent\<close> are parameters; of \<open>_parent\<close> the theorem assumes that a parent is shorter
  than its path.
\<close>

theorem touch_spec:
  assumes "parent_shortens fw"
  shows "(truncate_arg \<or> \<not> fst (exists_fn path fs) \<longrightarrow>
            (\<exists>fs2. invalidate_cache fw (Some (parent fw path))
                      (if truncate_arg then fs else snd (exists_fn path fs)) = Some fs2 \<and>
                   norm_key fw (parent fw path) \<notin> dom (dircache fs2) \<and>
                   touch fw exists_fn open_wb path truncate_arg fs = Some (open_wb path fs2))) \<and>
         (\<not> truncate_arg \<and> fst (exists_fn path fs) \<longrightarrow>
            touch fw exists_fn open_wb path truncate_arg fs =
              Some (Inl NotImplementedError, snd (exists_fn path fs)))"
proof (intro conjI impI)
  assume go: "truncate_arg \<or> \<not> fst (exists_fn path fs)"
  let ?fs1 = "if truncate_arg then fs else snd (exists_fn path fs)"
  obtain fs2 where i: "invalidate_cache fw (Some (parent fw path)) ?fs1 = Some fs2"
    and d: "norm_key fw (parent fw path) \<notin> dom (dircache fs2)"
    using invalidate_cache_removes [OF assms, of "parent fw path" ?fs1] by auto
  have "touch fw exists_fn open_wb path truncate_arg fs = Some (open_wb path fs2)"
    using touch_go [where fw = fw and exists_fn = exists_fn and open_wb = open_wb
        and path = path and truncate_arg = truncate_arg and fs = fs] go i
    by simp
  with i d show "\<exists>fs2. invalidate_cache fw (Some (parent fw path)) ?fs1 = Some fs2 \<and>
      norm_key fw (parent fw path) \<notin> dom (dircache fs2) \<and>
      touch fw exists_fn open_wb path truncate_arg fs = Some (open_wb path fs2)"
    by (intro exI [of _ fs2]) simp
next
  assume "\<not> truncate_arg \<and> fst (exists_fn path fs)"
  then show "touch fw exists_fn open_wb path truncate_arg fs =
      Some (Inl NotImplementedError, snd (exists_fn path fs))"
    by (simp add: touch_refuse)
qed


lemma norm_parent_bxnew: "norm_key fsspec (parent fsspec ''b/x/new'') = ''b/x''"
  by (simp add: norm_key_def fsspec_def fsspec_parent_def strip_protocol_def startswith_def
      lstrip_def rsplit1_head_def)

lemma norm_parent_bxold: "norm_key fsspec (parent fsspec ''b/x/old'') = ''b/x''"
  by (simp add: norm_key_def fsspec_def fsspec_parent_def strip_protocol_def startswith_def
      lstrip_def rsplit1_head_def)

theorem touch_spec_witness:
  "parent_shortens fsspec \<and>
   \<not> fst ((\<lambda>p fs. (p = ''b/x/old'', fs)) ''b/x/new''
       \<lparr>endpoint = None, default_block_size = 5242880, default_cache_type = ''readahead'',
        dircache = [''b/x'' \<mapsto> [''old'']]\<rparr>) \<and>
   map_option (\<lambda>(r, fs'). (r, dircache fs' ''b/x''))
     (touch fsspec (\<lambda>p fs. (p = ''b/x/old'', fs)) (\<lambda>p fs. (Inr (), fs)) ''b/x/new'' False
       \<lparr>endpoint = None, default_block_size = 5242880, default_cache_type = ''readahead'',
        dircache = [''b/x'' \<mapsto> [''old'']]\<rparr>) = Some (Inr (), None) \<and>
   map_option (\<lambda>(r, fs'). (r, dircache fs' ''b/x''))
     (touch fsspec (\<lambda>p fs. (p = ''b/x/old'', fs)) (\<lambda>p fs. (Inr (), fs)) ''b/x/old'' True
       \<lparr>endpoint = None, default_block_size = 5242880, default_cache_type = ''readahead'',
        dircache = [''b/x'' \<mapsto> [''old'']]\<rparr>) = Some (Inr (), None) \<and>
   fst ((\<lambda>p fs. (p = ''b/x/old'', fs)) ''b/x/old''
       \<lparr>endpoint = None, default_block_size = 5242880, default_cache_type = ''readahead'',
        dircache = [''b/x'' \<mapsto> [''old'']]\<rparr>) \<and>
   touch fsspec (\<lambda>p fs. (p = ''b/x/old'', fs)) (\<lambda>p fs. (Inr (), fs)) ''b/x/old'' False
       \<lparr>endpoint = None, default_block_size = 5242880, default_cache_type = ''readahead'',
        dircache = [''b/x'' \<mapsto> [''old'']]\<rparr> =
     Some (Inl NotImplementedError,
       \<lparr>endpoint = None, default_block_size = 5242880, default_cache_type = ''readahead'',
        dircache = [''b/x'' \<mapsto> [''old'']]\<rparr>)"
proof -
  let ?fs = "\<lparr>endpoint = None, default_block_size = 5242880, default_cache_type = ''readahead'',
        dircache = [''b/x'' \<mapsto> [''old'']]\<rparr> :: string list cosfs"
  let ?ex = "\<lambda>(p::string) (fs::string list cosfs). (p = ''b/x/old'', fs)"
  let ?ow = "\<lambda>(p::string) (fs::string list cosfs). (Inr () :: error + unit, fs)"
  note t = touch_spec [OF fsspec_parent_shortens, where exists_fn = ?ex and open_wb = ?ow
      and fs = ?fs]
  have h1: "\<not> fst (?ex ''b/x/new'' ?fs)" and h3: "fst (?ex ''b/x/old'' ?fs)"
    by simp_all
  have c1: "map_option (\<lambda>(r, fs'). (r, dircache fs' ''b/x''))
      (touch fsspec ?ex ?ow ''b/x/new'' False ?fs) = Some (Inr (), None)"
    using t [where path = "''b/x/new''" and truncate_arg = False] h1
    by (auto simp: norm_parent_bxnew dom_def)
  have c2: "map_option (\<lambda>(r, fs'). (r, dircache fs' ''b/x''))
      (touch fsspec ?ex ?ow ''b/x/old'' True ?fs) = Some (Inr (), None)"
    using t [where path = "''b/x/old''" and truncate_arg = True]
    by (auto simp: norm_parent_bxold dom_def)
  have c3: "touch fsspec ?ex ?ow ''b/x/old'' False ?fs = Some (Inl NotImplementedError, ?fs)"
    using t [where path = "''b/x/old''" and truncate_arg = False] h3
    by simp
  from fsspec_parent_shortens h1 c1 c2 h3 c3 show ?thesis
    by (intro conjI)
qed

lemma open_file_passes_block_size:
  "of_block_size (open_file fs path mode block_size autocommit cache_options kwargs) = block_size"
  by (simp add: open_file_def Let_def)

lemma open_file_default_cache_type:
  "kwargs ''cache_type'' = None \<Longrightarrow>
   of_cache_type (open_file fs path mode block_size autocommit cache_options kwargs) =
     Some (default_cache_type fs)"
  by (simp add: open_file_def Let_def)

text \<open>
  Claim C9: \<open>_open\<close> on a filesystem constructed with \<open>default_block_size = 1048576\<close>,
  called with no block size and no cache type.  The cache type handed to the file handle is
  the filesystem's default; the block size handed to it is \<open>None\<close>, not the configured
  \<open>1048576\<close>: \<open>_open\<close> never reads \<open>_default_block_size\<close>.
\<close>

theorem open_file_block_size_not_resolved:
  "default_block_size (init None None ''readahead'' (Some 1048576) :: unit cosfs) = 1048576 \<and>
   of_block_size (open_file (init None None ''readahead'' (Some 1048576) :: unit cosfs)
      ''bucket/key'' ''rb'' None True None Map.empty) = None \<and>
   of_cache_type (open_file (init None None ''readahead'' (Some 1048576) :: unit cosfs)
      ''bucket/key'' ''rb'' None True None Map.empty) = Some ''readahead''"
  by (simp add: open_file_def init_def)

end
